theory Spec2Isabelle
  imports Main
begin

section \<open>The lifecycle orchestrator of \<^verbatim>\<open>internal/build/build.go\<close>\<close>

text \<open>
  The development follows \<^verbatim>\<open>build.go\<close>. Strings are Go strings read as byte
  sequences. The collaborators the file only calls (the container runtime client, the
  logger, the volume caches and the phase methods of the lifecycle, which live in other
  files) are modelled by the calls made on them: every call is appended to a trace
  together with the answer it received, and the answers are given by an arbitrary
  function of everything that happened before. A call answers with an error or with
  none; it does not change the fields of the lifecycle.
\<close>

subsection \<open>Mount paths\<close>

text \<open>\<^verbatim>\<open>SupportedPlatformAPIVersions = []string{"0.2", "0.3"}\<close>\<close>

definition SupportedPlatformAPIVersions :: "string list" where
  "SupportedPlatformAPIVersions = [''0.2'', ''0.3'']"

record mountPaths =
  prefix :: string

text \<open>The Go raw string \<^verbatim>\<open>`c:\`\<close>: the letter c, a colon and one backslash.\<close>

definition windows_root :: string where
  "windows_root = [CHR ''c'', CHR '':'', CHR 0x5C]"

definition mountPathsForOS :: "string \<Rightarrow> mountPaths" where
  "mountPathsForOS os_name =
     (let p = ''/'';
          p = (if os_name = ''windows'' then windows_root else p)
      in \<lparr>prefix = p\<rparr>)"

definition layersDir :: "mountPaths \<Rightarrow> string" where
  "layersDir m = prefix m @ ''layers''"

definition appDirName :: "mountPaths \<Rightarrow> string" where
  "appDirName m = ''workspace''"

definition appDir :: "mountPaths \<Rightarrow> string" where
  "appDir m = prefix m @ appDirName m"

definition cacheDir :: "mountPaths \<Rightarrow> string" where
  "cacheDir m = prefix m @ ''cache''"

definition launchCacheDir :: "mountPaths \<Rightarrow> string" where
  "launchCacheDir m = prefix m @ ''launch-cache''"

definition platformDir :: "mountPaths \<Rightarrow> string" where
  "platformDir m = prefix m @ ''platform''"

text \<open>
  Two strings differ only in case when they agree after ASCII upper-case letters are
  replaced by their lower-case ones. This is used to state a property, not by the code.
\<close>

definition to_lower :: "char \<Rightarrow> char" where
  "to_lower c =
     (let n = (of_char c :: nat)
      in if 65 \<le> n \<and> n \<le> 90 then char_of (n + 32) else c)"

definition differs_only_in_case :: "string \<Rightarrow> string \<Rightarrow> bool" where
  "differs_only_in_case a b \<longleftrightarrow> a \<noteq> b \<and> map to_lower a = map to_lower b"

subsection \<open>Errors, contexts and the collaborators\<close>

text \<open>
  An error is an opaque error value of a collaborator or the result of
  \<^verbatim>\<open>errors.Wrap(err, msg)\<close> / \<^verbatim>\<open>errors.Wrapf(err, format, args)\<close>, which keeps the
  cause and adds a message.
\<close>

datatype error = Error string | Wrap error string

text \<open>All errors of a chain of wraps, the outermost first.\<close>

fun chain :: "error \<Rightarrow> error list" where
  "chain (Error m) = [Error m]"
| "chain (Wrap e m) = Wrap e m # chain e"

text \<open>
  A context is \<^verbatim>\<open>context.Background()\<close> or a context made by the caller, which may
  have been cancelled.
\<close>

datatype "context" = Background | Cancellable (cancelled: bool)

record LifecycleDescriptor =
  Info_Version :: string
  API_PlatformVersion :: string

text \<open>
  The \<^verbatim>\<open>Builder\<close> interface, by the values of its methods: \<open>Descriptor\<close> is the
  result of \<^verbatim>\<open>LifecycleDescriptor()\<close>, with the two version strings \<^verbatim>\<open>Setup\<close> reads, and
  \<open>Image_OS\<close> is the result of \<^verbatim>\<open>Image().OS()\<close>.
\<close>

record Builder =
  Name :: string
  UID :: int
  GID :: int
  Descriptor :: LifecycleDescriptor
  Image_OS :: "error + string"

record Lifecycle =
  builder :: "Builder option"
  appPath :: string
  appOnce :: "bool option"
  httpProxy :: string
  httpsProxy :: string
  noProxy :: string
  version :: string
  platformAPIVersion :: string
  LayersVolume :: string
  AppVolume :: string
  l_Volumes :: "string list"
  l_DefaultProcessType :: string
  fileFilter :: "(string \<Rightarrow> bool) option"
  os :: string
  mountPaths :: mountPaths

text \<open>
  \<open>Image\<close> is the image reference, identified with its \<^verbatim>\<open>Name()\<close>. A func value
  and an interface value may be nil, hence the options.
\<close>

record LifecycleOptions =
  AppPath :: string
  Image :: string
  Builder :: Builder
  RunImage :: string
  ClearCache :: bool
  Publish :: bool
  HTTPProxy :: string
  HTTPSProxy :: string
  NoProxy :: string
  Network :: string
  Volumes :: "string list"
  DefaultProcessType :: string
  FileFilter :: "(string \<Rightarrow> bool) option"

text \<open>\<^verbatim>\<open>cache.NewVolumeCache(image, kind, docker)\<close>\<close>

datatype Cache = NewVolumeCache string string

text \<open>
  The calls \<^verbatim>\<open>Execute\<close> and \<^verbatim>\<open>Cleanup\<close> make on their collaborators, with the
  arguments of the source (the phase factory, built from the lifecycle, is left out:
  the lifecycle itself is given to the answering function).
\<close>

datatype call =
    Cache_Clear Cache "context"
  | prepareAppVolume "context"
  | Detect "context" string "string list"
  | Analyze "context" string string bool bool
  | Restore "context" string
  | Build "context" string "string list"
  | Export "context" string string bool string string
  | VolumeRemove "context" string bool

text \<open>\<^verbatim>\<open>style.Step(s)\<close>, \<^verbatim>\<open>style.Symbol(s)\<close> and unstyled strings.\<close>

datatype styled = Plain string | Step string | Symbol string

datatype event =
    Debugf string "styled list"
  | Info styled
  | Called call "error option"

record env =
  cache_Name :: "Cache \<Rightarrow> string"
  respond :: "event list \<Rightarrow> Lifecycle \<Rightarrow> call \<Rightarrow> error option"

text \<open>
  The state: the fields of the \<^verbatim>\<open>Lifecycle\<close>, the global source of \<^verbatim>\<open>math/rand\<close>
  (the values it will still draw) and the trace.
\<close>

record state =
  lc :: Lifecycle
  rng :: "nat \<Rightarrow> nat"
  trace :: "event list"

definition logger :: "event \<Rightarrow> state \<Rightarrow> state" where
  "logger ev s = s\<lparr>trace := trace s @ [ev]\<rparr>"

definition invoke :: "env \<Rightarrow> call \<Rightarrow> state \<Rightarrow> error option \<times> state" where
  "invoke env c s =
     (let r = respond env (trace s) (lc s) c
      in (r, s\<lparr>trace := trace s @ [Called c r]\<rparr>))"

text \<open>The events a run appended to the trace.\<close>

definition emitted :: "state \<Rightarrow> state \<Rightarrow> event list" where
  "emitted s s' = drop (length (trace s)) (trace s')"

subsection \<open>Volume names\<close>

text \<open>
  \<^verbatim>\<open>rand.Intn(n)\<close> for a positive \<open>n\<close>: the next value of the source, brought below \<open>n\<close>,
  and the source moves on. Every sequence of results below \<open>n\<close> comes from some source.
\<close>

definition Intn :: "nat \<Rightarrow> (nat \<Rightarrow> nat) \<Rightarrow> nat \<times> (nat \<Rightarrow> nat)" where
  "Intn n r = (r 0 mod n, \<lambda>i. r (Suc i))"

text \<open>\<^verbatim>\<open>'a' + byte(k)\<close>, in 8-bit arithmetic, as a character.\<close>

definition letter :: "nat \<Rightarrow> char" where
  "letter k = char_of ((97 + k mod 256) mod 256)"

fun randString :: "nat \<Rightarrow> (nat \<Rightarrow> nat) \<Rightarrow> string \<times> (nat \<Rightarrow> nat)" where
  "randString 0 r = ([], r)"
| "randString (Suc n) r =
     (let (k, r1) = Intn 26 r;
          (b, r2) = randString n r1
      in (letter k # b, r2))"

definition lowercase :: "char set" where
  "lowercase = set ''abcdefghijklmnopqrstuvwxyz''"

subsection \<open>Setup, Execute and Cleanup\<close>

definition NewLifecycle :: Lifecycle where
  "NewLifecycle =
     \<lparr>builder = None, appPath = [], appOnce = None, httpProxy = [], httpsProxy = [],
      noProxy = [], version = [], platformAPIVersion = [], LayersVolume = [],
      AppVolume = [], l_Volumes = [], l_DefaultProcessType = [], fileFilter = None,
      os = [], mountPaths = \<lparr>prefix = []\<rparr>\<rparr>"

definition Setup :: "LifecycleOptions \<Rightarrow> state \<Rightarrow> error option \<times> state" where
  "Setup opts s =
     (let (n1, r1) = randString 10 (rng s);
          (n2, r2) = randString 10 r1;
          l = (lc s)\<lparr>LayersVolume := ''pack-layers-'' @ n1,
                     AppVolume := ''pack-app-'' @ n2,
                     appPath := AppPath opts,
                     appOnce := Some False,
                     builder := Some (Builder opts),
                     httpProxy := HTTPProxy opts,
                     httpsProxy := HTTPSProxy opts,
                     noProxy := NoProxy opts,
                     version := Info_Version (Descriptor (Builder opts)),
                     platformAPIVersion := API_PlatformVersion (Descriptor (Builder opts)),
                     l_DefaultProcessType := DefaultProcessType opts,
                     fileFilter := FileFilter opts\<rparr>
      in case Image_OS (Builder opts) of
           Inl err \<Rightarrow> (Some err, s\<lparr>lc := l, rng := r2\<rparr>)
         | Inr os_name \<Rightarrow>
             (None, s\<lparr>lc := l\<lparr>os := os_name, mountPaths := mountPathsForOS os_name\<rparr>,
                       rng := r2\<rparr>))"

definition Cleanup :: "env \<Rightarrow> state \<Rightarrow> error option \<times> state" where
  "Cleanup env s =
     (let reterr = None;
          (r1, s) = invoke env (VolumeRemove Background (LayersVolume (lc s)) True) s;
          reterr = (case r1 of
                      Some err \<Rightarrow>
                        Some (Wrap err (''failed to clean up layers volume '' @ LayersVolume (lc s)))
                    | None \<Rightarrow> reterr);
          (r2, s) = invoke env (VolumeRemove Background (AppVolume (lc s)) True) s;
          reterr = (case r2 of
                      Some err \<Rightarrow>
                        Some (Wrap err (''failed to clean up app volume '' @ AppVolume (lc s)))
                    | None \<Rightarrow> reterr)
      in (reterr, s))"

text \<open>\<^verbatim>\<open>if err := ...; err != nil { return err }\<close> and then the rest.\<close>

definition and_then ::
  "error option \<times> state \<Rightarrow> (state \<Rightarrow> error option \<times> state) \<Rightarrow> error option \<times> state" where
  "and_then r f = (case r of (Some err, s) \<Rightarrow> (Some err, s) | (None, s) \<Rightarrow> f s)"

text \<open>The message \<^verbatim>\<open>Skipping 'restore' due to clearing cache\<close>.\<close>

definition skip_restore_message :: string where
  "skip_restore_message =
     ''Skipping '' @ [CHR 0x27] @ ''restore'' @ [CHR 0x27] @ '' due to clearing cache''"

text \<open>The body of \<^verbatim>\<open>Execute\<close> after \<^verbatim>\<open>defer l.Cleanup()\<close>.\<close>

definition Execute_body ::
  "env \<Rightarrow> context \<Rightarrow> LifecycleOptions \<Rightarrow> state \<Rightarrow> error option \<times> state" where
  "Execute_body env ctx opts s =
     (let buildCache = NewVolumeCache (Image opts) ''build'';
          launchCache = NewVolumeCache (Image opts) ''launch'';
          s = logger (Debugf ''Using build cache volume %s''
                        [Symbol (cache_Name env buildCache)]) s
      in
      and_then
        (if ClearCache opts then
           (case invoke env (Cache_Clear buildCache ctx) s of
              (Some err, s) \<Rightarrow> (Some (Wrap err ''clearing build cache''), s)
            | (None, s) \<Rightarrow>
                (None, logger (Debugf ''Build cache %s cleared''
                                 [Symbol (cache_Name env buildCache)]) s))
         else (None, s))
      (\<lambda>s. and_then
        (invoke env (prepareAppVolume ctx) (logger (Info (Step ''PREPARING'')) s))
      (\<lambda>s. and_then
        (invoke env (Detect ctx (Network opts) (Volumes opts))
           (logger (Info (Step ''DETECTING'')) s))
      (\<lambda>s. and_then
        (invoke env (Analyze ctx (Image opts) (cache_Name env buildCache) (Publish opts)
                       (ClearCache opts))
           (logger (Info (Step ''ANALYZING'')) s))
      (\<lambda>s. and_then
        (let s = logger (Info (Step ''RESTORING'')) s
         in if ClearCache opts then (None, logger (Info (Plain skip_restore_message)) s)
            else invoke env (Restore ctx (cache_Name env buildCache)) s)
      (\<lambda>s. and_then
        (invoke env (Build ctx (Network opts) (Volumes opts))
           (logger (Info (Step ''BUILDING'')) s))
      (\<lambda>s.
        invoke env (Export ctx (Image opts) (RunImage opts) (Publish opts)
                      (cache_Name env launchCache) (cache_Name env buildCache))
          (logger (Info (Step ''EXPORTING'')) s))))))))"

text \<open>
  \<^verbatim>\<open>Execute\<close>: the error of \<^verbatim>\<open>Setup\<close> is returned at once; otherwise the deferred
  \<^verbatim>\<open>Cleanup\<close> runs when the body returns, and its own result is dropped.
\<close>

definition Execute ::
  "env \<Rightarrow> context \<Rightarrow> LifecycleOptions \<Rightarrow> state \<Rightarrow> error option \<times> state" where
  "Execute env ctx opts s =
     (case Setup opts s of
        (Some err, s) \<Rightarrow> (Some err, s)
      | (None, s) \<Rightarrow>
          (let (res, s) = Execute_body env ctx opts s;
               (_, s) = Cleanup env s
           in (res, s)))"

subsection \<open>Reading a trace\<close>

text \<open>
  The definitions of this subsection are not code of the repository: they name what the
  properties below say about a trace.
\<close>

fun calls :: "event list \<Rightarrow> call list" where
  "calls [] = []"
| "calls (Called c r # evs) = c # calls evs"
| "calls (ev # evs) = calls evs"

text \<open>The phases: preparing the app volume and the five lifecycle phases.\<close>

fun is_phase :: "call \<Rightarrow> bool" where
  "is_phase (Cache_Clear c x) = False"
| "is_phase (VolumeRemove x v f) = False"
| "is_phase c = True"

fun is_clear :: "call \<Rightarrow> bool" where
  "is_clear (Cache_Clear c x) = True"
| "is_clear c = False"

fun is_removal :: "call \<Rightarrow> bool" where
  "is_removal (VolumeRemove x v f) = True"
| "is_removal c = False"

fun is_Restore :: "call \<Rightarrow> bool" where
  "is_Restore (Restore x n) = True"
| "is_Restore c = False"

text \<open>The two calls one run of \<^verbatim>\<open>Cleanup\<close> makes.\<close>

definition Cleanup_calls :: "Lifecycle \<Rightarrow> call list" where
  "Cleanup_calls l =
     [VolumeRemove Background (LayersVolume l) True,
      VolumeRemove Background (AppVolume l) True]"

text \<open>A phase or the cache clear answered with an error.\<close>

fun failed :: "event \<Rightarrow> bool" where
  "failed (Called c (Some e)) = (is_phase c \<or> is_clear c)"
| "failed ev = False"

text \<open>
  The error \<^verbatim>\<open>Execute\<close> returns for the error \<open>e\<close> of a call: the error of the cache
  clear with the context \<^verbatim>\<open>clearing build cache\<close>, the error of a phase as it is.
\<close>

fun surfaced :: "call \<Rightarrow> error \<Rightarrow> error" where
  "surfaced (Cache_Clear c x) e = Wrap e ''clearing build cache''"
| "surfaced c e = e"

text \<open>What the last event of the body of \<^verbatim>\<open>Execute\<close> says about the error returned.\<close>

fun final_error :: "event \<Rightarrow> error option" where
  "final_error (Called c r) =
     (if is_phase c \<or> is_clear c then map_option (surfaced c) r else None)"
| "final_error ev = None"

text \<open>
  The phase sequence in the words of the specification: each phase after its step
  message; in the place of Restore, the skip notice when the cache is cleared.
\<close>

datatype step = Message styled | Phase call

definition phase_sequence :: "env \<Rightarrow> context \<Rightarrow> LifecycleOptions \<Rightarrow> step list" where
  "phase_sequence env ctx opts =
     [Message (Step ''PREPARING''), Phase (prepareAppVolume ctx),
      Message (Step ''DETECTING''), Phase (Detect ctx (Network opts) (Volumes opts)),
      Message (Step ''ANALYZING''),
      Phase (Analyze ctx (Image opts) (cache_Name env (NewVolumeCache (Image opts) ''build''))
               (Publish opts) (ClearCache opts)),
      Message (Step ''RESTORING''),
      (if ClearCache opts then Message (Plain skip_restore_message)
       else Phase (Restore ctx (cache_Name env (NewVolumeCache (Image opts) ''build'')))),
      Message (Step ''BUILDING''), Phase (Build ctx (Network opts) (Volumes opts)),
      Message (Step ''EXPORTING''),
      Phase (Export ctx (Image opts) (RunImage opts) (Publish opts)
               (cache_Name env (NewVolumeCache (Image opts) ''launch''))
               (cache_Name env (NewVolumeCache (Image opts) ''build'')))]"

text \<open>
  A trace follows a sequence of steps when it is the sequence, event by event, up to
  its end or up to the first phase that answered with an error: it stops nowhere else,
  neither after a message nor after a phase that answered with no error.
\<close>

fun follows :: "step list \<Rightarrow> event list \<Rightarrow> bool" where
  "follows [] [] = True"
| "follows (Message m # ss) (Info m' # evs) = (m = m' \<and> follows ss evs)"
| "follows (Phase c # ss) (Called c' r # evs) =
     (c = c' \<and> (case r of None \<Rightarrow> follows ss evs | Some e \<Rightarrow> evs = []))"
| "follows ss evs = False"

text \<open>The phases of a sequence of steps, in their order.\<close>

fun phases_of :: "step list \<Rightarrow> call list" where
  "phases_of [] = []"
| "phases_of (Phase c # ss) = c # phases_of ss"
| "phases_of (Message m # ss) = phases_of ss"

text \<open>The events of the phase sequence: the informational messages and the phase calls.\<close>

fun is_step_event :: "event \<Rightarrow> bool" where
  "is_step_event (Info m) = True"
| "is_step_event (Called c r) = is_phase c"
| "is_step_event (Debugf f a) = False"

text \<open>An error value mentions an error when that error is in its chain of causes.\<close>

definition mentions :: "error option \<Rightarrow> error \<Rightarrow> bool" where
  "mentions res e = (case res of None \<Rightarrow> False | Some r \<Rightarrow> e \<in> set (chain r))"

subsection \<open>Sample inputs\<close>

definition sample_builder :: "string \<Rightarrow> error + string \<Rightarrow> Builder" where
  "sample_builder v image_os =
     \<lparr>Name = ''sample/builder'', UID = 1000, GID = 1000,
      Descriptor = \<lparr>Info_Version = ''0.6.1'', API_PlatformVersion = v\<rparr>,
      Image_OS = image_os\<rparr>"

definition sample_opts :: "Builder \<Rightarrow> bool \<Rightarrow> LifecycleOptions" where
  "sample_opts b clear =
     \<lparr>AppPath = ''/src/app'', Image = ''registry/app'', Builder = b, RunImage = ''run'',
      ClearCache = clear, Publish = False, HTTPProxy = [], HTTPSProxy = [], NoProxy = [],
      Network = ''host'', Volumes = [], DefaultProcessType = ''web'', FileFilter = None\<rparr>"

text \<open>Collaborators that answer the calls in \<open>bad\<close> with an error and all others with none.\<close>

definition sample_error :: "call \<Rightarrow> error" where
  "sample_error c =
     (case c of
        Cache_Clear k x \<Rightarrow> Error ''cache busy''
      | VolumeRemove x v f \<Rightarrow> Error (''cannot remove '' @ v)
      | _ \<Rightarrow> Error ''exit status 1'')"

definition sample_env :: "(call \<Rightarrow> bool) \<Rightarrow> env" where
  "sample_env bad =
     \<lparr>cache_Name = (\<lambda>c. case c of NewVolumeCache i k \<Rightarrow> ''pack-cache-'' @ i @ ''.'' @ k),
      respond = (\<lambda>tr l c. if bad c then Some (sample_error c) else None)\<rparr>"

fun is_Detect :: "call \<Rightarrow> bool" where
  "is_Detect (Detect x n v) = True"
| "is_Detect c = False"

definition never :: "call \<Rightarrow> bool" where
  "never c = False"

text \<open>A new lifecycle, a source that draws 0, 1, 2, ... and an empty trace.\<close>

definition sample_state :: state where
  "sample_state = \<lparr>lc = NewLifecycle, rng = (\<lambda>i. i), trace = []\<rparr>"

section \<open>Mount-path resolution\<close>

lemma prefix_mountPathsForOS:
  "prefix (mountPathsForOS os_name) = (if os_name = ''windows'' then windows_root else ''/'')"
  by (simp add: mountPathsForOS_def)

text \<open>
  Claim C6. For every OS identifier, \<open>mountPathsForOS\<close> returns mount paths (it is a total
  function with no error result) whose prefix is the Windows drive root exactly when the
  identifier is \<^verbatim>\<open>windows\<close>, and \<^verbatim>\<open>/\<close> for every other value, known or not; the five
  paths are the prefix followed by \<^verbatim>\<open>layers\<close>, \<^verbatim>\<open>workspace\<close>, \<^verbatim>\<open>cache\<close>,
  \<^verbatim>\<open>launch-cache\<close> and \<^verbatim>\<open>platform\<close>, whatever the OS.
\<close>

theorem mountPathsForOS_prefix:
  "(prefix (mountPathsForOS os_name) = windows_root \<longleftrightarrow> os_name = ''windows'')
   \<and> (prefix (mountPathsForOS os_name) = ''/'' \<longleftrightarrow> os_name \<noteq> ''windows'')
   \<and> layersDir (mountPathsForOS os_name) = prefix (mountPathsForOS os_name) @ ''layers''
   \<and> appDir (mountPathsForOS os_name) = prefix (mountPathsForOS os_name) @ ''workspace''
   \<and> cacheDir (mountPathsForOS os_name) = prefix (mountPathsForOS os_name) @ ''cache''
   \<and> launchCacheDir (mountPathsForOS os_name) = prefix (mountPathsForOS os_name) @ ''launch-cache''
   \<and> platformDir (mountPathsForOS os_name) = prefix (mountPathsForOS os_name) @ ''platform''"
  by (simp add: prefix_mountPathsForOS windows_root_def layersDir_def appDir_def
        appDirName_def cacheDir_def launchCacheDir_def platformDir_def)

text \<open>
  The paths for \<^verbatim>\<open>windows\<close>, \<^verbatim>\<open>linux\<close> and an unknown OS.
\<close>

theorem mountPathsForOS_prefix_witness:
  "prefix (mountPathsForOS ''windows'') = windows_root
   \<and> prefix (mountPathsForOS ''linux'') = ''/''
   \<and> prefix (mountPathsForOS ''plan9'') = ''/''
   \<and> layersDir (mountPathsForOS ''windows'') = windows_root @ ''layers''
   \<and> layersDir (mountPathsForOS ''linux'') = ''/layers''"
  using mountPathsForOS_prefix [of "''windows''"] mountPathsForOS_prefix [of "''linux''"]
    mountPathsForOS_prefix [of "''plan9''"]
  by simp

text \<open>
  Claim C10. The comparison with \<^verbatim>\<open>windows\<close> is case-sensitive: an identifier that differs
  from \<^verbatim>\<open>windows\<close> only in the case of its letters gets the prefix \<^verbatim>\<open>/\<close>, not the
  Windows drive root.
\<close>

theorem mountPathsForOS_case_sensitive:
  "differs_only_in_case os_name ''windows'' \<Longrightarrow>
   prefix (mountPathsForOS os_name) = ''/'' \<and> prefix (mountPathsForOS os_name) \<noteq> windows_root"
  by (simp add: prefix_mountPathsForOS differs_only_in_case_def windows_root_def)

text \<open>
  The identifiers \<^verbatim>\<open>Windows\<close> and \<^verbatim>\<open>WINDOWS\<close>.
\<close>

theorem mountPathsForOS_case_sensitive_witness:
  "differs_only_in_case ''Windows'' ''windows'' \<and> prefix (mountPathsForOS ''Windows'') = ''/''
   \<and> differs_only_in_case ''WINDOWS'' ''windows'' \<and> prefix (mountPathsForOS ''WINDOWS'') = ''/''"
proof -
  have h1: "differs_only_in_case ''Windows'' ''windows''" by code_simp
  have h2: "differs_only_in_case ''WINDOWS'' ''windows''" by code_simp
  from mountPathsForOS_case_sensitive [OF h1] mountPathsForOS_case_sensitive [OF h2] h1 h2
  show ?thesis by blast
qed

section \<open>Volume names\<close>

lemma lowercase_letters: "lowercase = set (map letter [0..<26])"
  unfolding lowercase_def by code_simp

lemma letter_lowercase: "k < 26 \<Longrightarrow> letter k \<in> lowercase"
  unfolding lowercase_letters by simp

lemma lowercase_letter: "c \<in> lowercase \<Longrightarrow> \<exists>k<26. letter k = c"
  unfolding lowercase_letters by auto

lemma card_lowercase: "card lowercase = 26"
proof -
  have "distinct ''abcdefghijklmnopqrstuvwxyz''" by code_simp
  then show ?thesis
    unfolding lowercase_def by (simp add: distinct_card)
qed

lemma randString_Suc:
  "randString (Suc n) r =
     (letter (r 0 mod 26) # fst (randString n (\<lambda>i. r (Suc i))),
      snd (randString n (\<lambda>i. r (Suc i))))"
  by (simp add: Intn_def split: prod.splits)

lemma randString_length: "length (fst (randString n r)) = n"
  by (induction n arbitrary: r) (simp_all add: randString_Suc del: randString.simps(2))

lemma randString_lowercase: "set (fst (randString n r)) \<subseteq> lowercase"
  by (induction n arbitrary: r)
     (simp_all add: randString_Suc letter_lowercase del: randString.simps(2))

lemma randString_rng: "snd (randString n r) = (\<lambda>i. r (i + n))"
  by (induction n arbitrary: r) (simp_all add: randString_Suc del: randString.simps(2))

lemma randString_onto:
  "length name = n \<Longrightarrow> set name \<subseteq> lowercase \<Longrightarrow> \<exists>r. fst (randString n r) = name"
proof (induction name arbitrary: n)
  case Nil
  then show ?case by simp
next
  case (Cons c cs)
  then obtain m where n: "n = Suc m" and m: "length cs = m"
    by (cases n) auto
  from Cons.prems obtain k where k: "k < 26" "letter k = c"
    using lowercase_letter by auto
  from Cons.IH [OF m] Cons.prems obtain r' where r': "fst (randString m r') = cs"
    by auto
  define r where "r = (\<lambda>i. case i of 0 \<Rightarrow> k | Suc j \<Rightarrow> r' j)"
  have "r 0 mod 26 = k" and "(\<lambda>i. r (Suc i)) = r'"
    using k by (simp_all add: r_def)
  then have "fst (randString n r) = c # cs"
    using k r' by (simp add: n randString_Suc del: randString.simps(2))
  then show ?case by blast
qed

lemma randString_range:
  "range (\<lambda>r. fst (randString n r)) = {name. length name = n \<and> set name \<subseteq> lowercase}"
proof (intro equalityI subsetI)
  fix name assume "name \<in> range (\<lambda>r. fst (randString n r))"
  then show "name \<in> {name. length name = n \<and> set name \<subseteq> lowercase}"
    using randString_length [of n] randString_lowercase [of n] by auto
next
  fix name assume "name \<in> {name. length name = n \<and> set name \<subseteq> lowercase}"
  then obtain r where "fst (randString n r) = name"
    using randString_onto by blast
  then show "name \<in> range (\<lambda>r. fst (randString n r))"
    by auto
qed

lemma Setup_trace: "trace (snd (Setup opts s)) = trace s"
  by (simp add: Setup_def Let_def split: prod.splits sum.splits)

lemma Setup_fst:
  "fst (Setup opts s) = (case Image_OS (Builder opts) of Inl e \<Rightarrow> Some e | Inr x \<Rightarrow> None)"
  by (simp add: Setup_def Let_def split: prod.splits sum.splits)

lemma Setup_LayersVolume:
  "LayersVolume (lc (snd (Setup opts s))) = ''pack-layers-'' @ fst (randString 10 (rng s))"
  by (simp add: Setup_def Let_def split: prod.splits sum.splits)

lemma Setup_AppVolume:
  "AppVolume (lc (snd (Setup opts s))) =
     ''pack-app-'' @ fst (randString 10 (snd (randString 10 (rng s))))"
  by (simp add: Setup_def Let_def split: prod.splits sum.splits)

lemma Setup_rng:
  "rng (snd (Setup opts s)) = snd (randString 10 (snd (randString 10 (rng s))))"
  by (simp add: Setup_def Let_def split: prod.splits sum.splits)

lemma Setup_platformAPIVersion:
  "platformAPIVersion (lc (snd (Setup opts s))) = API_PlatformVersion (Descriptor (Builder opts))"
  by (simp add: Setup_def Let_def split: prod.splits sum.splits)

text \<open>
  Claim C7. Every \<^verbatim>\<open>Setup\<close>, whether it then succeeds or not, generates one layers volume
  name and one app volume name: the prefixes \<^verbatim>\<open>pack-layers-\<close> and \<^verbatim>\<open>pack-app-\<close>, each
  followed by its own \<^verbatim>\<open>randString(10)\<close>, which takes twenty values from the random source
  in all. A \<^verbatim>\<open>randString(10)\<close> is ten lower-case letters, and every string of ten lower-case
  letters is one, so that there are \<open>26 ^ 10\<close> possible suffixes.
\<close>

theorem Setup_volume_names:
  "LayersVolume (lc (snd (Setup opts s))) = ''pack-layers-'' @ fst (randString 10 (rng s))
   \<and> AppVolume (lc (snd (Setup opts s))) =
       ''pack-app-'' @ fst (randString 10 (snd (randString 10 (rng s))))
   \<and> rng (snd (Setup opts s)) = (\<lambda>i. rng s (i + 20))
   \<and> length (fst (randString 10 r)) = 10
   \<and> set (fst (randString 10 r)) \<subseteq> lowercase
   \<and> range (\<lambda>r. fst (randString 10 r)) = {name. length name = 10 \<and> set name \<subseteq> lowercase}
   \<and> card (range (\<lambda>r. fst (randString 10 r))) = 26 ^ 10"
proof -
  have "card {name. set name \<subseteq> lowercase \<and> length name = 10} = card lowercase ^ 10"
    by (rule card_lists_length_eq) (simp add: lowercase_def)
  then have "card (range (\<lambda>r. fst (randString 10 r))) = 26 ^ 10"
    by (simp add: randString_range card_lowercase conj_commute)
  moreover have "rng (snd (Setup opts s)) = (\<lambda>i. rng s (i + 20))"
    by (simp add: Setup_rng randString_rng add.assoc)
  ultimately show ?thesis
    by (simp add: Setup_LayersVolume Setup_AppVolume randString_length randString_lowercase
          randString_range)
qed

subsection \<open>The sample inputs\<close>

lemma randString_sample_1: "randString 10 (\<lambda>i. i) = (''abcdefghij'', \<lambda>i. i + 10)"
proof -
  have "fst (randString 10 (\<lambda>i. i)) = ''abcdefghij''" by code_simp
  then show ?thesis
    by (simp add: prod_eq_iff randString_rng)
qed

lemma randString_sample_2: "randString 10 (\<lambda>i. i + 10) = (''klmnopqrst'', \<lambda>i. i + 10 + 10)"
proof -
  have "fst (randString 10 (\<lambda>i. i + 10)) = ''klmnopqrst''" by code_simp
  then show ?thesis
    by (simp add: prod_eq_iff randString_rng)
qed

lemmas sample_defs =
  Execute_def Execute_body_def and_then_def invoke_def logger_def Cleanup_def emitted_def
  Setup_def Let_def sample_opts_def sample_builder_def sample_state_def sample_env_def
  sample_error_def NewLifecycle_def never_def randString_sample_1 randString_sample_2

text \<open>
  The names generated from the source that draws 0, 1, 2, ...
\<close>

theorem Setup_volume_names_witness:
  "LayersVolume (lc (snd (Setup (sample_opts (sample_builder ''0.2'' (Inr ''linux'')) False)
                               sample_state))) = ''pack-layers-abcdefghij''
   \<and> AppVolume (lc (snd (Setup (sample_opts (sample_builder ''0.2'' (Inr ''linux'')) False)
                               sample_state))) = ''pack-app-klmnopqrst''
   \<and> length ''abcdefghij'' = 10 \<and> set ''abcdefghij'' \<subseteq> lowercase"
  using Setup_volume_names
    [of "sample_opts (sample_builder ''0.2'' (Inr ''linux'')) False" sample_state "\<lambda>i. i"]
  by (simp add: randString_sample_1 randString_sample_2 sample_state_def)

section \<open>Cleanup\<close>

lemma calls_append: "calls (xs @ ys) = calls xs @ calls ys"
  by (induction xs rule: calls.induct) simp_all

lemma emitted_append: "trace s' = trace s @ xs \<Longrightarrow> emitted s s' = xs"
  by (simp add: emitted_def)

lemma emitted_same: "trace s' = trace s \<Longrightarrow> emitted s s' = []"
  by (simp add: emitted_def)

lemma Cleanup_lc: "lc (snd (Cleanup env s)) = lc s"
  by (simp add: Cleanup_def invoke_def Let_def split: prod.splits)

lemma Cleanup_result:
  "\<exists>r1 r2.
     trace (snd (Cleanup env s)) =
       trace s @ [Called (VolumeRemove Background (LayersVolume (lc s)) True) r1,
                  Called (VolumeRemove Background (AppVolume (lc s)) True) r2]
     \<and> fst (Cleanup env s) =
         (case r2 of
            Some e2 \<Rightarrow> Some (Wrap e2 (''failed to clean up app volume '' @ AppVolume (lc s)))
          | None \<Rightarrow>
              (case r1 of
                 Some e1 \<Rightarrow>
                   Some (Wrap e1 (''failed to clean up layers volume '' @ LayersVolume (lc s)))
               | None \<Rightarrow> None))"
  by (simp add: Cleanup_def invoke_def Let_def split: prod.splits option.splits)

text \<open>
  When both removals fail, the error returned is the one of the app volume alone: the
  error of the layers volume is not part of it.
\<close>

theorem Cleanup_drops_first_error_counterexample:
  "emitted (snd (Setup (sample_opts (sample_builder ''0.2'' (Inr ''linux'')) False) sample_state))
     (snd (Cleanup (sample_env is_removal)
        (snd (Setup (sample_opts (sample_builder ''0.2'' (Inr ''linux'')) False) sample_state)))) =
     [Called (VolumeRemove Background ''pack-layers-abcdefghij'' True)
        (Some (Error ''cannot remove pack-layers-abcdefghij'')),
      Called (VolumeRemove Background ''pack-app-klmnopqrst'' True)
        (Some (Error ''cannot remove pack-app-klmnopqrst''))]
   \<and> fst (Cleanup (sample_env is_removal)
        (snd (Setup (sample_opts (sample_builder ''0.2'' (Inr ''linux'')) False) sample_state))) =
       Some (Wrap (Error ''cannot remove pack-app-klmnopqrst'')
               ''failed to clean up app volume pack-app-klmnopqrst'')
   \<and> \<not> mentions (fst (Cleanup (sample_env is_removal)
        (snd (Setup (sample_opts (sample_builder ''0.2'' (Inr ''linux'')) False) sample_state))))
        (Error ''cannot remove pack-layers-abcdefghij'')"
  by (simp add: sample_defs mentions_def)

text \<open>
  Claim C3, as amended. Every \<^verbatim>\<open>Cleanup\<close> attempts the removal of the layers volume and
  then of the app volume, whatever the first removal answered. It returns no error when
  both succeed; otherwise it returns the error of the last removal that failed, wrapped
  with the name of that volume: the error of the app volume when that removal failed
  (also when both failed), the error of the layers volume when only that one failed.
\<close>

theorem Cleanup_attempts_both_removals:
  "\<exists>r1 r2.
     emitted s (snd (Cleanup env s)) =
       [Called (VolumeRemove Background (LayersVolume (lc s)) True) r1,
        Called (VolumeRemove Background (AppVolume (lc s)) True) r2]
     \<and> fst (Cleanup env s) =
         (case r2 of
            Some e2 \<Rightarrow> Some (Wrap e2 (''failed to clean up app volume '' @ AppVolume (lc s)))
          | None \<Rightarrow>
              (case r1 of
                 Some e1 \<Rightarrow>
                   Some (Wrap e1 (''failed to clean up layers volume '' @ LayersVolume (lc s)))
               | None \<Rightarrow> None))"
proof -
  from Cleanup_result [of env s] obtain r1 r2 where
    "trace (snd (Cleanup env s)) =
       trace s @ [Called (VolumeRemove Background (LayersVolume (lc s)) True) r1,
                  Called (VolumeRemove Background (AppVolume (lc s)) True) r2]" and
    "fst (Cleanup env s) =
         (case r2 of
            Some e2 \<Rightarrow> Some (Wrap e2 (''failed to clean up app volume '' @ AppVolume (lc s)))
          | None \<Rightarrow>
              (case r1 of
                 Some e1 \<Rightarrow>
                   Some (Wrap e1 (''failed to clean up layers volume '' @ LayersVolume (lc s)))
               | None \<Rightarrow> None))"
    by blast
  then show ?thesis
    by (intro exI [of _ r1] exI [of _ r2]) (simp add: emitted_def)
qed

text \<open>
  Both removals fail.
\<close>

theorem Cleanup_attempts_both_removals_witness:
  "fst (Cleanup (sample_env is_removal)
        (snd (Setup (sample_opts (sample_builder ''0.2'' (Inr ''linux'')) False) sample_state))) =
       Some (Wrap (Error ''cannot remove pack-app-klmnopqrst'')
               ''failed to clean up app volume pack-app-klmnopqrst'')"
proof -
  let ?s = "snd (Setup (sample_opts (sample_builder ''0.2'' (Inr ''linux'')) False) sample_state)"
  have em: "emitted ?s (snd (Cleanup (sample_env is_removal) ?s)) =
     [Called (VolumeRemove Background ''pack-layers-abcdefghij'' True)
        (Some (Error ''cannot remove pack-layers-abcdefghij'')),
      Called (VolumeRemove Background ''pack-app-klmnopqrst'' True)
        (Some (Error ''cannot remove pack-app-klmnopqrst''))]"
    by (simp add: sample_defs)
  have app: "AppVolume (lc ?s) = ''pack-app-klmnopqrst''"
    by (simp add: sample_defs)
  from Cleanup_attempts_both_removals [of ?s "sample_env is_removal"] show ?thesis
    unfolding em by (auto simp: app)
qed

section \<open>The body of Execute\<close>

text \<open>
  The body runs through at most eight calls; each of the following facts is checked on
  every path through it.
\<close>

lemma mentions_surfaced: "mentions (Some (surfaced c e)) e"
  by (cases c; cases e) (simp_all add: mentions_def)

lemma surfaced_phase: "is_phase c \<Longrightarrow> map_option (surfaced c) r = r"
  by (cases c; cases r) simp_all

lemma failed_removal: "\<not> failed (Called (VolumeRemove x v f) r)"
  by (cases r) simp_all

lemma Execute_body_frame:
  "Execute_body env ctx opts s = (res, s') \<Longrightarrow>
   lc s' = lc s \<and> rng s' = rng s \<and> (\<exists>body. trace s' = trace s @ body)"
  unfolding Execute_body_def and_then_def invoke_def logger_def Let_def
  by (auto split: if_splits option.splits prod.splits)

lemma Execute_body_failure:
  "Execute_body env ctx opts s = (res, s') \<Longrightarrow>
   emitted s s' \<noteq> [] \<and> res = final_error (last (emitted s s'))
   \<and> (\<forall>ev\<in>set (butlast (emitted s s')). \<not> failed ev)
   \<and> filter is_removal (calls (emitted s s')) = []"
  unfolding Execute_body_def and_then_def invoke_def logger_def emitted_def Let_def
  by (auto simp: surfaced_phase split: if_splits option.splits prod.splits)

lemma Execute_body_follows:
  "Execute_body env ctx opts s = (res, s') \<Longrightarrow>
   ((\<forall>e. Called (Cache_Clear (NewVolumeCache (Image opts) ''build'') ctx) (Some e)
           \<notin> set (emitted s s'))
      \<longrightarrow> follows (phase_sequence env ctx opts) (filter is_step_event (emitted s s')))
   \<and> (res = None \<longrightarrow>
        length (filter is_step_event (emitted s s')) = length (phase_sequence env ctx opts))"
  unfolding Execute_body_def and_then_def invoke_def logger_def emitted_def
    phase_sequence_def Let_def
  apply (auto split: if_splits option.splits prod.splits)
  apply (rule exI, erule sym)+
  done

lemma Execute_body_clear:
  "Execute_body env ctx opts s = (res, s') \<Longrightarrow>
   filter is_clear (calls (emitted s s')) =
     (if ClearCache opts then [Cache_Clear (NewVolumeCache (Image opts) ''build'') ctx] else [])
   \<and> Debugf ''Using build cache volume %s''
        [Symbol (cache_Name env (NewVolumeCache (Image opts) ''build''))] \<in> set (emitted s s')
   \<and> (Called (Cache_Clear (NewVolumeCache (Image opts) ''build'') ctx) (Some e) \<in> set (emitted s s')
        \<longrightarrow> filter is_step_event (emitted s s') = [])
   \<and> ((\<forall>e. Called (Cache_Clear (NewVolumeCache (Image opts) ''build'') ctx) (Some e) \<notin> set (emitted s s'))
        \<longrightarrow> prepareAppVolume ctx \<in> set (calls (emitted s s')))"
  unfolding Execute_body_def and_then_def invoke_def logger_def emitted_def Let_def
  by (auto split: if_splits option.splits prod.splits)

lemma Execute_body_restore:
  "Execute_body env ctx opts s = (res, s') \<Longrightarrow>
   (ClearCache opts \<longrightarrow> filter is_Restore (calls (emitted s s')) = [])
   \<and> (\<not> ClearCache opts \<longrightarrow> Info (Plain skip_restore_message) \<notin> set (emitted s s'))
   \<and> (Called (Analyze ctx (Image opts) (cache_Name env (NewVolumeCache (Image opts) ''build''))
                 (Publish opts) (ClearCache opts)) None \<in> set (emitted s s') \<longrightarrow>
        (if ClearCache opts
         then Info (Plain skip_restore_message) \<in> set (emitted s s')
         else Restore ctx (cache_Name env (NewVolumeCache (Image opts) ''build''))
                \<in> set (calls (emitted s s'))))"
  unfolding Execute_body_def and_then_def invoke_def logger_def emitted_def Let_def
  by (auto split: if_splits option.splits prod.splits)

text \<open>
  An event that satisfies \<open>P\<close>, in a list where only the last event of the front part
  may satisfy it, is that last event.
\<close>

lemma only_failure:
  assumes "\<forall>x\<in>set (butlast b). \<not> P x" and "\<forall>x\<in>set t. \<not> P x"
    and "b @ t = pre @ ev # post" and "P ev"
  shows "b = pre @ [ev] \<and> post = t"
  using assms
proof (induction pre arbitrary: b)
  case Nil
  then show ?case by (cases b) (auto split: if_splits)
next
  case (Cons p pre)
  show ?case
  proof (cases b)
    case Nil
    with Cons.prems show ?thesis by auto
  next
    case (Cons x b')
    with Cons.prems have "b' @ t = pre @ ev # post" and "x = p" by simp_all
    moreover from Cons Cons.prems have "\<forall>x\<in>set (butlast b'). \<not> P x"
      by (auto split: if_splits)
    ultimately have "b' = pre @ [ev] \<and> post = t"
      using Cons.IH Cons.prems by blast
    with Cons \<open>x = p\<close> show ?thesis by simp
  qed
qed

section \<open>Execute\<close>

lemma Execute_Setup_failed:
  "fst (Setup opts s) = Some err \<Longrightarrow> Execute env ctx opts s = (Some err, snd (Setup opts s))"
  by (cases "Setup opts s") (simp add: Execute_def)

lemma Execute_Setup_ok:
  "fst (Setup opts s) = None \<Longrightarrow>
   Execute env ctx opts s =
     (fst (Execute_body env ctx opts (snd (Setup opts s))),
      snd (Cleanup env (snd (Execute_body env ctx opts (snd (Setup opts s))))))"
  by (cases "Setup opts s") (simp add: Execute_def split: prod.splits)

text \<open>
  A run of \<^verbatim>\<open>Execute\<close> after a successful \<^verbatim>\<open>Setup\<close>: the body, then the two removals of
  \<^verbatim>\<open>Cleanup\<close>.
\<close>

lemma Execute_pieces:
  assumes ok: "fst (Setup opts s) = None" and ex: "Execute env ctx opts s = (res, s')"
  obtains s2 r1 r2 where
    "Execute_body env ctx opts (snd (Setup opts s)) = (res, s2)"
    "lc s' = lc (snd (Setup opts s))"
    "emitted s s' = emitted (snd (Setup opts s)) s2 @
       [Called (VolumeRemove Background (LayersVolume (lc s')) True) r1,
        Called (VolumeRemove Background (AppVolume (lc s')) True) r2]"
proof -
  define s1 where "s1 = snd (Setup opts s)"
  define s2 where "s2 = snd (Execute_body env ctx opts s1)"
  have res: "res = fst (Execute_body env ctx opts s1)" and s': "s' = snd (Cleanup env s2)"
    using Execute_Setup_ok [OF ok, of env ctx] ex by (simp_all add: s1_def s2_def)
  have body: "Execute_body env ctx opts s1 = (res, s2)"
    by (simp add: res s2_def)
  from Execute_body_frame [OF body] obtain b where
    lc2: "lc s2 = lc s1" and tr2: "trace s2 = trace s1 @ b"
    by blast
  from Cleanup_result [of env s2] obtain r1 r2 where
    tr3: "trace s' = trace s2 @ [Called (VolumeRemove Background (LayersVolume (lc s2)) True) r1,
                  Called (VolumeRemove Background (AppVolume (lc s2)) True) r2]"
    unfolding s' by blast
  have lc3: "lc s' = lc s1"
    by (simp add: s' Cleanup_lc lc2)
  have tr1: "trace s1 = trace s"
    by (simp add: s1_def Setup_trace)
  have "emitted s s' = emitted s1 s2 @
       [Called (VolumeRemove Background (LayersVolume (lc s')) True) r1,
        Called (VolumeRemove Background (AppVolume (lc s')) True) r2]"
    by (simp add: emitted_def tr3 tr2 tr1 lc3 lc2)
  with body lc3 show thesis
    using that by (simp add: s1_def)
qed

lemma Execute_emitted_cases:
  assumes "Execute env ctx opts s = (res, s')"
  obtains (failed_Setup) err where "fst (Setup opts s) = Some err" "res = Some err" "emitted s s' = []"
    | (ran) s2 r1 r2 where "fst (Setup opts s) = None"
        "Execute_body env ctx opts (snd (Setup opts s)) = (res, s2)"
        "lc s' = lc (snd (Setup opts s))"
        "emitted s s' = emitted (snd (Setup opts s)) s2 @
           [Called (VolumeRemove Background (LayersVolume (lc s')) True) r1,
            Called (VolumeRemove Background (AppVolume (lc s')) True) r2]"
proof (cases "fst (Setup opts s)")
  case None
  from Execute_pieces [OF None assms] None show thesis
    using ran by blast
next
  case (Some err)
  from Execute_Setup_failed [OF Some, of env ctx] assms
  have "res = Some err" and "emitted s s' = []"
    by (auto simp: Setup_trace emitted_same)
  with Some show thesis
    using failed_Setup by blast
qed

lemma final_error_not_failed: "\<not> failed ev \<Longrightarrow> final_error ev = None"
proof (cases ev)
  case (Called c r)
  then show "\<not> failed ev \<Longrightarrow> final_error ev = None"
    by (cases r) simp_all
qed simp_all

lemma final_error_Some:
  "final_error ev = Some err \<Longrightarrow>
   \<exists>c e. ev = Called c (Some e) \<and> (is_phase c \<or> is_clear c) \<and> err = surfaced c e"
  by (cases ev) (auto split: if_splits)

lemma follows_phases:
  "follows ss evs \<Longrightarrow> length evs = length ss \<Longrightarrow> calls evs = phases_of ss"
  by (induction ss evs rule: follows.induct) (auto split: option.splits)

lemma calls_step_events: "calls (filter is_step_event evs) = filter is_phase (calls evs)"
  by (induction evs rule: calls.induct) auto

text \<open>
  A run whose \<^verbatim>\<open>Setup\<close> succeeded: the order of its steps, what it returns when no call
  fails, and where an error it returns comes from.
\<close>

lemma Execute_ran:
  assumes ok: "fst (Setup opts s) = None" and ex: "Execute env ctx opts s = (res, s')"
  shows "(\<forall>e. Called (Cache_Clear (NewVolumeCache (Image opts) ''build'') ctx) (Some e)
              \<notin> set (emitted s s'))
          \<longrightarrow> follows (phase_sequence env ctx opts) (filter is_step_event (emitted s s'))"
    and "(\<forall>ev\<in>set (emitted s s'). \<not> failed ev)
          \<longrightarrow> res = None
             \<and> filter is_phase (calls (emitted s s')) = phases_of (phase_sequence env ctx opts)"
    and "res = Some err
          \<longrightarrow> (\<exists>c e. Called c (Some e) \<in> set (emitted s s') \<and> (is_phase c \<or> is_clear c)
                      \<and> err = surfaced c e)"
    and "res = None
          \<longrightarrow> length (filter is_step_event (emitted s s')) = length (phase_sequence env ctx opts)"
proof -
  from Execute_pieces [OF ok ex] obtain s2 r1 r2 where
    body: "Execute_body env ctx opts (snd (Setup opts s)) = (res, s2)" and
    em: "emitted s s' = emitted (snd (Setup opts s)) s2 @
       [Called (VolumeRemove Background (LayersVolume (lc s')) True) r1,
        Called (VolumeRemove Background (AppVolume (lc s')) True) r2]"
    by blast
  define b where "b = emitted (snd (Setup opts s)) s2"
  have steps: "filter is_step_event (emitted s s') = filter is_step_event b"
    and set: "set b \<subseteq> set (emitted s s')"
    by (auto simp: em b_def)
  from Execute_body_failure [OF body] have
    res: "res = final_error (last b)" and ne: "b \<noteq> []"
    by (simp_all add: b_def)
  from Execute_body_follows [OF body] have
    fol: "(\<forall>e. Called (Cache_Clear (NewVolumeCache (Image opts) ''build'') ctx) (Some e)
              \<notin> set b) \<longrightarrow> follows (phase_sequence env ctx opts) (filter is_step_event b)"
    and len: "res = None \<longrightarrow>
          length (filter is_step_event b) = length (phase_sequence env ctx opts)"
    by (simp_all add: b_def)
  show 1: "(\<forall>e. Called (Cache_Clear (NewVolumeCache (Image opts) ''build'') ctx) (Some e)
              \<notin> set (emitted s s'))
          \<longrightarrow> follows (phase_sequence env ctx opts) (filter is_step_event (emitted s s'))"
    using fol set unfolding steps by blast
  show 4: "res = None
          \<longrightarrow> length (filter is_step_event (emitted s s')) = length (phase_sequence env ctx opts)"
    using len by (simp add: steps)
  show "(\<forall>ev\<in>set (emitted s s'). \<not> failed ev)
          \<longrightarrow> res = None
             \<and> filter is_phase (calls (emitted s s')) = phases_of (phase_sequence env ctx opts)"
  proof
    assume nf: "\<forall>ev\<in>set (emitted s s'). \<not> failed ev"
    from ne have "last b \<in> set b" by simp
    with set nf have "\<not> failed (last b)" by blast
    then have none: "res = None"
      by (simp add: res final_error_not_failed)
    have "\<forall>e. Called (Cache_Clear (NewVolumeCache (Image opts) ''build'') ctx) (Some e)
              \<notin> set (emitted s s')"
    proof (intro allI notI)
      fix e
      assume "Called (Cache_Clear (NewVolumeCache (Image opts) ''build'') ctx) (Some e)
                \<in> set (emitted s s')"
      with nf have "\<not> failed (Called (Cache_Clear (NewVolumeCache (Image opts) ''build'') ctx)
                                (Some e))"
        by blast
      then show False by simp
    qed
    with 1 have "follows (phase_sequence env ctx opts) (filter is_step_event (emitted s s'))"
      by blast
    from follows_phases [OF this] 4 none
    have "calls (filter is_step_event (emitted s s')) = phases_of (phase_sequence env ctx opts)"
      by simp
    with none show "res = None
             \<and> filter is_phase (calls (emitted s s')) = phases_of (phase_sequence env ctx opts)"
      by (simp add: calls_step_events)
  qed
  show "res = Some err
          \<longrightarrow> (\<exists>c e. Called c (Some e) \<in> set (emitted s s') \<and> (is_phase c \<or> is_clear c)
                      \<and> err = surfaced c e)"
  proof
    assume "res = Some err"
    then have "final_error (last b) = Some err"
      by (simp add: res)
    from final_error_Some [OF this] obtain c e where
      "last b = Called c (Some e)" "is_phase c \<or> is_clear c" "err = surfaced c e"
      by blast
    moreover from ne have "last b \<in> set b" by simp
    ultimately show "\<exists>c e. Called c (Some e) \<in> set (emitted s s') \<and> (is_phase c \<or> is_clear c)
                      \<and> err = surfaced c e"
      using set by auto
  qed
qed

text \<open>
  Claim C1. In a run of \<^verbatim>\<open>Execute\<close> whose \<^verbatim>\<open>Setup\<close> succeeded, let a phase (preparing
  the app volume, Detect, Analyze, Restore, Build or Export) or the cache clear answer with
  an error \<open>e\<close>. Then \<^verbatim>\<open>Execute\<close> returns that error (the error of a phase as it is, the
  error of the cache clear inside the context \<^verbatim>\<open>clearing build cache\<close>), nothing is called
  after the failed call but the two removals of \<^verbatim>\<open>Cleanup\<close>, and in the whole run
  \<^verbatim>\<open>Cleanup\<close> is run exactly once: its two removals are the only removals. If \<^verbatim>\<open>Setup\<close>
  fails, \<^verbatim>\<open>Execute\<close> returns the error of \<^verbatim>\<open>Setup\<close> and the run calls nothing: no phase
  and no removal.
\<close>

theorem Execute_failure_stops_and_cleans_up:
  assumes "Execute env ctx opts s = (res, s')"
  shows "(fst (Setup opts s) = Some err \<longrightarrow> res = Some err \<and> emitted s s' = [])
       \<and> (fst (Setup opts s) = None \<longrightarrow>
            filter is_removal (calls (emitted s s')) = Cleanup_calls (lc s')
          \<and> (emitted s s' = pre @ Called c (Some e) # post \<and> (is_phase c \<or> is_clear c) \<longrightarrow>
                res = Some (surfaced c e) \<and> mentions res e
              \<and> calls post = Cleanup_calls (lc s') \<and> length post = 2
              \<and> filter is_removal (calls pre) = []))"
proof (intro conjI impI)
  assume "fst (Setup opts s) = Some err"
  from Execute_Setup_failed [OF this, of env ctx] assms
  show "res = Some err" and "emitted s s' = []"
    by (auto simp: Setup_trace emitted_same)
next
  assume ok: "fst (Setup opts s) = None"
  from Execute_pieces [OF ok assms] obtain s2 r1 r2 where
    body: "Execute_body env ctx opts (snd (Setup opts s)) = (res, s2)" and
    em: "emitted s s' = emitted (snd (Setup opts s)) s2 @
       [Called (VolumeRemove Background (LayersVolume (lc s')) True) r1,
        Called (VolumeRemove Background (AppVolume (lc s')) True) r2]"
    by blast
  define b where "b = emitted (snd (Setup opts s)) s2"
  from Execute_body_failure [OF body] have
    res: "res = final_error (last b)" and
    butlast: "\<forall>ev\<in>set (butlast b). \<not> failed ev" and
    norem: "filter is_removal (calls b) = []"
    by (simp_all add: b_def)
  show "filter is_removal (calls (emitted s s')) = Cleanup_calls (lc s')"
    by (simp add: em calls_append norem Cleanup_calls_def flip: b_def)
  assume "emitted s s' = pre @ Called c (Some e) # post \<and> (is_phase c \<or> is_clear c)"
  then have dec: "b @ [Called (VolumeRemove Background (LayersVolume (lc s')) True) r1,
        Called (VolumeRemove Background (AppVolume (lc s')) True) r2] = pre @ Called c (Some e) # post"
    and f: "failed (Called c (Some e))"
    by (simp_all add: em b_def)
  have "b = pre @ [Called c (Some e)] \<and>
        post = [Called (VolumeRemove Background (LayersVolume (lc s')) True) r1,
                Called (VolumeRemove Background (AppVolume (lc s')) True) r2]"
    by (rule only_failure [OF butlast _ dec f]) (simp add: failed_removal)
  then have b: "b = pre @ [Called c (Some e)]" and
    post: "post = [Called (VolumeRemove Background (LayersVolume (lc s')) True) r1,
                Called (VolumeRemove Background (AppVolume (lc s')) True) r2]"
    by simp_all
  from f show r: "res = Some (surfaced c e)"
    by (simp add: res b)
  show "mentions res e"
    unfolding r by (rule mentions_surfaced)
  show "calls post = Cleanup_calls (lc s')" and "length post = 2"
    by (simp_all add: post Cleanup_calls_def)
  from norem show "filter is_removal (calls pre) = []"
    by (simp add: b calls_append)
qed

text \<open>
  A run in which Detect fails, and a run in which the OS of the builder image cannot be
  read.
\<close>

theorem Execute_failure_stops_and_cleans_up_witness:
  "fst (Execute (sample_env is_Detect) (Cancellable False)
             (sample_opts (sample_builder ''0.2'' (Inr ''linux'')) True) sample_state)
       = Some (Error ''exit status 1'')
   \<and> filter is_removal (calls (emitted sample_state
         (snd (Execute (sample_env is_Detect) (Cancellable False)
                (sample_opts (sample_builder ''0.2'' (Inr ''linux'')) True) sample_state))))
       = [VolumeRemove Background ''pack-layers-abcdefghij'' True,
          VolumeRemove Background ''pack-app-klmnopqrst'' True]
   \<and> fst (Execute (sample_env never) (Cancellable False)
             (sample_opts (sample_builder ''0.2'' (Inl (Error ''no such image''))) False)
             sample_state)
       = Some (Error ''no such image'')
   \<and> emitted sample_state
         (snd (Execute (sample_env never) (Cancellable False)
                (sample_opts (sample_builder ''0.2'' (Inl (Error ''no such image''))) False)
                sample_state)) = []"
proof -
  let ?opts = "sample_opts (sample_builder ''0.2'' (Inr ''linux'')) True"
  let ?run = "Execute (sample_env is_Detect) (Cancellable False) ?opts sample_state"
  let ?c = "Detect (Cancellable False) ''host'' []"
  let ?pre = "[Debugf ''Using build cache volume %s'' [Symbol ''pack-cache-registry/app.build''],
     Called (Cache_Clear (NewVolumeCache ''registry/app'' ''build'') (Cancellable False)) None,
     Debugf ''Build cache %s cleared'' [Symbol ''pack-cache-registry/app.build''],
     Info (Step ''PREPARING''), Called (prepareAppVolume (Cancellable False)) None,
     Info (Step ''DETECTING'')]"
  let ?post = "[Called (VolumeRemove Background ''pack-layers-abcdefghij'' True) None,
     Called (VolumeRemove Background ''pack-app-klmnopqrst'' True) None]"
  have ok: "fst (Setup ?opts sample_state) = None"
    by (simp add: sample_defs)
  have dec: "emitted sample_state (snd ?run) =
      ?pre @ Called ?c (Some (Error ''exit status 1'')) # ?post \<and> (is_phase ?c \<or> is_clear ?c)"
    by (simp add: sample_defs)
  have names: "Cleanup_calls (lc (snd ?run)) =
      [VolumeRemove Background ''pack-layers-abcdefghij'' True,
       VolumeRemove Background ''pack-app-klmnopqrst'' True]"
    by (simp add: sample_defs Cleanup_calls_def)
  have run: "?run = (fst ?run, snd ?run)"
    by simp
  let ?opts' = "sample_opts (sample_builder ''0.2'' (Inl (Error ''no such image''))) False"
  let ?run' = "Execute (sample_env never) (Cancellable False) ?opts' sample_state"
  have bad: "fst (Setup ?opts' sample_state) = Some (Error ''no such image'')"
    by (simp add: sample_defs)
  have run': "?run' = (fst ?run', snd ?run')"
    by simp
  from Execute_failure_stops_and_cleans_up
         [OF run, of "Error ''x''" ?pre ?c "Error ''exit status 1''" ?post]
  have "fst ?run = Some (surfaced ?c (Error ''exit status 1''))"
    and "filter is_removal (calls (emitted sample_state (snd ?run))) = Cleanup_calls (lc (snd ?run))"
    using ok dec by blast+
  moreover from Execute_failure_stops_and_cleans_up
         [OF run', of "Error ''no such image''" "[]" ?c "Error ''x''" "[]"]
  have "fst ?run' = Some (Error ''no such image'')" and "emitted sample_state (snd ?run') = []"
    using bad by blast+
  ultimately show ?thesis
    by (simp add: names)
qed

text \<open>
  With the cache cleared and Detect failing, the run reaches the phase sequence and ends
  without the skip notice.
\<close>

theorem Execute_skip_notice_counterexample:
  "ClearCache (sample_opts (sample_builder ''0.2'' (Inr ''linux'')) True)
   \<and> emitted sample_state
        (snd (Execute (sample_env is_Detect) (Cancellable False)
               (sample_opts (sample_builder ''0.2'' (Inr ''linux'')) True) sample_state)) =
       [Debugf ''Using build cache volume %s'' [Symbol ''pack-cache-registry/app.build''],
        Called (Cache_Clear (NewVolumeCache ''registry/app'' ''build'') (Cancellable False)) None,
        Debugf ''Build cache %s cleared'' [Symbol ''pack-cache-registry/app.build''],
        Info (Step ''PREPARING''), Called (prepareAppVolume (Cancellable False)) None,
        Info (Step ''DETECTING''),
        Called (Detect (Cancellable False) ''host'' []) (Some (Error ''exit status 1'')),
        Called (VolumeRemove Background ''pack-layers-abcdefghij'' True) None,
        Called (VolumeRemove Background ''pack-app-klmnopqrst'' True) None]
   \<and> Info (Plain skip_restore_message) \<notin> set (emitted sample_state
        (snd (Execute (sample_env is_Detect) (Cancellable False)
               (sample_opts (sample_builder ''0.2'' (Inr ''linux'')) True) sample_state)))"
  by (simp add: sample_defs)

text \<open>
  Claim C2, as amended. In every run of \<^verbatim>\<open>Execute\<close> whose \<^verbatim>\<open>Setup\<close> succeeded and in
  which clearing the cache did not fail, the step messages and phase calls are exactly,
  in this order, PREPARING, preparing the app volume, DETECTING, Detect, ANALYZING,
  Analyze, RESTORING, the skip notice if \<open>ClearCache\<close> is set and Restore if it is not,
  BUILDING, Build, EXPORTING, Export: each phase right after its step message, up to the
  first phase that returns an error, where the run stops, and it stops nowhere else.
  When no phase and no cache clear returns an error, \<^verbatim>\<open>Execute\<close> returns no error and the
  phases invoked are all the phases of the sequence, in its order. When \<^verbatim>\<open>Setup\<close> or
  clearing the cache fails there is no step message and no phase call. Restore is never
  invoked when \<open>ClearCache\<close> is set and the skip notice is never logged when it is not;
  in every run in which Analyze returned no error, the skip notice is logged if
  \<open>ClearCache\<close> is set and Restore is invoked if it is not.
\<close>

theorem Execute_phase_order:
  assumes "Execute env ctx opts s = (res, s')"
  shows "(fst (Setup opts s) = None
            \<and> (\<forall>e. Called (Cache_Clear (NewVolumeCache (Image opts) ''build'') ctx) (Some e)
                     \<notin> set (emitted s s'))
          \<longrightarrow> follows (phase_sequence env ctx opts) (filter is_step_event (emitted s s')))
       \<and> (fst (Setup opts s) \<noteq> None
            \<or> Called (Cache_Clear (NewVolumeCache (Image opts) ''build'') ctx) (Some e)
                 \<in> set (emitted s s')
          \<longrightarrow> filter is_step_event (emitted s s') = [])
       \<and> (fst (Setup opts s) = None \<and> (\<forall>ev\<in>set (emitted s s'). \<not> failed ev)
          \<longrightarrow> res = None
             \<and> filter is_phase (calls (emitted s s')) = phases_of (phase_sequence env ctx opts))
       \<and> (res = None \<longrightarrow>
            length (filter is_step_event (emitted s s')) = length (phase_sequence env ctx opts))
       \<and> (ClearCache opts \<longrightarrow> filter is_Restore (calls (emitted s s')) = [])
       \<and> (\<not> ClearCache opts \<longrightarrow> Info (Plain skip_restore_message) \<notin> set (emitted s s'))
       \<and> (Called (Analyze ctx (Image opts) (cache_Name env (NewVolumeCache (Image opts) ''build''))
                 (Publish opts) (ClearCache opts)) None \<in> set (emitted s s') \<longrightarrow>
            (if ClearCache opts
             then Info (Plain skip_restore_message) \<in> set (emitted s s')
             else Restore ctx (cache_Name env (NewVolumeCache (Image opts) ''build''))
                    \<in> set (calls (emitted s s'))))"
  using assms
proof (cases rule: Execute_emitted_cases)
  case (failed_Setup err)
  then show ?thesis by simp
next
  case (ran s2 r1 r2)
  from Execute_body_clear [OF ran(2), of e]
  have "Called (Cache_Clear (NewVolumeCache (Image opts) ''build'') ctx) (Some e)
                 \<in> set (emitted s s')
          \<longrightarrow> filter is_step_event (emitted s s') = []"
    by (simp add: ran(4))
  moreover from Execute_body_restore [OF ran(2)]
  have "(ClearCache opts \<longrightarrow> filter is_Restore (calls (emitted s s')) = [])
       \<and> (\<not> ClearCache opts \<longrightarrow> Info (Plain skip_restore_message) \<notin> set (emitted s s'))
       \<and> (Called (Analyze ctx (Image opts) (cache_Name env (NewVolumeCache (Image opts) ''build''))
                 (Publish opts) (ClearCache opts)) None \<in> set (emitted s s') \<longrightarrow>
            (if ClearCache opts
             then Info (Plain skip_restore_message) \<in> set (emitted s s')
             else Restore ctx (cache_Name env (NewVolumeCache (Image opts) ''build''))
                    \<in> set (calls (emitted s s'))))"
    by (simp add: ran(4) calls_append)
  ultimately show ?thesis
    using Execute_ran(1,2,4) [OF ran(1) assms] ran(1) by simp
qed

text \<open>
  A run with the cache cleared and one without, no call failing, and a run in which
  clearing the cache fails.
\<close>

theorem Execute_phase_order_witness:
  "fst (Execute (sample_env never) (Cancellable False)
          (sample_opts (sample_builder ''0.2'' (Inr ''linux'')) True) sample_state) = None
   \<and> filter is_phase (calls (emitted sample_state
        (snd (Execute (sample_env never) (Cancellable False)
               (sample_opts (sample_builder ''0.2'' (Inr ''linux'')) True) sample_state)))) =
       [prepareAppVolume (Cancellable False),
        Detect (Cancellable False) ''host'' [],
        Analyze (Cancellable False) ''registry/app'' ''pack-cache-registry/app.build'' False True,
        Build (Cancellable False) ''host'' [],
        Export (Cancellable False) ''registry/app'' ''run'' False
          ''pack-cache-registry/app.launch'' ''pack-cache-registry/app.build'']
   \<and> follows (phase_sequence (sample_env never) (Cancellable False)
                 (sample_opts (sample_builder ''0.2'' (Inr ''linux'')) True))
        (filter is_step_event (emitted sample_state
          (snd (Execute (sample_env never) (Cancellable False)
                 (sample_opts (sample_builder ''0.2'' (Inr ''linux'')) True) sample_state))))
   \<and> length (filter is_step_event (emitted sample_state
        (snd (Execute (sample_env never) (Cancellable False)
               (sample_opts (sample_builder ''0.2'' (Inr ''linux'')) True) sample_state)))) = 12
   \<and> filter is_Restore (calls (emitted sample_state
        (snd (Execute (sample_env never) (Cancellable False)
               (sample_opts (sample_builder ''0.2'' (Inr ''linux'')) True) sample_state)))) = []
   \<and> Info (Plain skip_restore_message) \<in> set (emitted sample_state
        (snd (Execute (sample_env never) (Cancellable False)
               (sample_opts (sample_builder ''0.2'' (Inr ''linux'')) True) sample_state)))
   \<and> Restore (Cancellable False) ''pack-cache-registry/app.build'' \<in> set (calls (emitted sample_state
        (snd (Execute (sample_env never) (Cancellable False)
               (sample_opts (sample_builder ''0.2'' (Inr ''linux'')) False) sample_state))))
   \<and> filter is_step_event (emitted sample_state
        (snd (Execute (sample_env is_clear) (Cancellable False)
               (sample_opts (sample_builder ''0.2'' (Inr ''linux'')) True) sample_state))) = []"
proof -
  let ?ctx = "Cancellable False"
  let ?opts = "sample_opts (sample_builder ''0.2'' (Inr ''linux'')) True"
  let ?run = "Execute (sample_env never) ?ctx ?opts sample_state"
  let ?opts' = "sample_opts (sample_builder ''0.2'' (Inr ''linux'')) False"
  let ?run' = "Execute (sample_env never) ?ctx ?opts' sample_state"
  let ?run'' = "Execute (sample_env is_clear) ?ctx ?opts sample_state"
  have run: "?run = (fst ?run, snd ?run)" and run': "?run' = (fst ?run', snd ?run')"
    and run'': "?run'' = (fst ?run'', snd ?run'')"
    by simp_all
  have ok: "fst (Setup ?opts sample_state) = None"
    by (simp add: sample_defs)
  have quiet: "\<forall>ev\<in>set (emitted sample_state (snd ?run)). \<not> failed ev"
    by (simp add: sample_defs)
  have noclear: "\<forall>e. Called (Cache_Clear (NewVolumeCache (Image ?opts) ''build'') ?ctx) (Some e)
      \<notin> set (emitted sample_state (snd ?run))"
    by (simp add: sample_defs)
  have clear: "ClearCache ?opts" and keep: "\<not> ClearCache ?opts'"
    by (simp_all add: sample_opts_def)
  have analyzed: "Called (Analyze ?ctx (Image ?opts)
        (cache_Name (sample_env never) (NewVolumeCache (Image ?opts) ''build''))
        (Publish ?opts) (ClearCache ?opts)) None \<in> set (emitted sample_state (snd ?run))"
    by (simp add: sample_defs)
  have analyzed': "Called (Analyze ?ctx (Image ?opts')
        (cache_Name (sample_env never) (NewVolumeCache (Image ?opts') ''build''))
        (Publish ?opts') (ClearCache ?opts')) None \<in> set (emitted sample_state (snd ?run'))"
    by (simp add: sample_defs)
  have failed_clear: "Called (Cache_Clear (NewVolumeCache (Image ?opts) ''build'') ?ctx)
      (Some (Error ''cache busy'')) \<in> set (emitted sample_state (snd ?run''))"
    by (simp add: sample_defs)
  have seq: "phases_of (phase_sequence (sample_env never) ?ctx ?opts) =
       [prepareAppVolume ?ctx, Detect ?ctx ''host'' [],
        Analyze ?ctx ''registry/app'' ''pack-cache-registry/app.build'' False True,
        Build ?ctx ''host'' [],
        Export ?ctx ''registry/app'' ''run'' False
          ''pack-cache-registry/app.launch'' ''pack-cache-registry/app.build'']"
    and len: "length (phase_sequence (sample_env never) ?ctx ?opts) = 12"
    by (simp_all add: phase_sequence_def sample_opts_def sample_env_def)
  have name: "cache_Name (sample_env never) (NewVolumeCache (Image ?opts') ''build'') =
      ''pack-cache-registry/app.build''"
    by (simp add: sample_defs)
  from Execute_phase_order [OF run, of "Error ''x''"] ok quiet noclear clear analyzed
  have "fst ?run = None"
    and "filter is_phase (calls (emitted sample_state (snd ?run))) =
           phases_of (phase_sequence (sample_env never) ?ctx ?opts)"
    and "follows (phase_sequence (sample_env never) ?ctx ?opts)
           (filter is_step_event (emitted sample_state (snd ?run)))"
    and "length (filter is_step_event (emitted sample_state (snd ?run))) =
           length (phase_sequence (sample_env never) ?ctx ?opts)"
    and "filter is_Restore (calls (emitted sample_state (snd ?run))) = []"
    and "Info (Plain skip_restore_message) \<in> set (emitted sample_state (snd ?run))"
    by simp_all
  moreover from Execute_phase_order [OF run', of "Error ''x''"] keep analyzed'
  have "Restore ?ctx ''pack-cache-registry/app.build'' \<in> set (calls (emitted sample_state (snd ?run')))"
    by (simp add: name)
  moreover from Execute_phase_order [OF run'', of "Error ''cache busy''"] failed_clear
  have "filter is_step_event (emitted sample_state (snd ?run'')) = []"
    by blast
  ultimately show ?thesis
    by (simp add: seq len)
qed

text \<open>
  Claim C4. In a run of \<^verbatim>\<open>Execute\<close> with \<open>ClearCache\<close> set in which clearing the build
  cache answers with an error \<open>e\<close>, \<^verbatim>\<open>Execute\<close> returns \<open>e\<close> wrapped with the context
  \<^verbatim>\<open>clearing build cache\<close> and no phase runs: the app volume is not prepared, none of
  Detect, Analyze, Restore, Build and Export is invoked and no step message is logged.
\<close>

theorem Execute_clear_failure_is_fatal:
  assumes "Execute env ctx opts s = (res, s')"
    and "ClearCache opts"
    and "Called (Cache_Clear (NewVolumeCache (Image opts) ''build'') ctx) (Some e)
           \<in> set (emitted s s')"
  shows "res = Some (Wrap e ''clearing build cache'')
       \<and> filter is_phase (calls (emitted s s')) = []
       \<and> filter is_step_event (emitted s s') = []"
proof -
  have ok: "fst (Setup opts s) = None"
  proof (cases "fst (Setup opts s)")
    case (Some err)
    from Execute_Setup_failed [OF this, of env ctx] assms(1) have "emitted s s' = []"
      by (auto simp: Setup_trace emitted_same)
    with assms(3) show ?thesis by simp
  qed simp
  from Execute_pieces [OF ok assms(1)] obtain s2 r1 r2 where
    body: "Execute_body env ctx opts (snd (Setup opts s)) = (res, s2)" and
    em: "emitted s s' = emitted (snd (Setup opts s)) s2 @
       [Called (VolumeRemove Background (LayersVolume (lc s')) True) r1,
        Called (VolumeRemove Background (AppVolume (lc s')) True) r2]"
    by blast
  define b where "b = emitted (snd (Setup opts s)) s2"
  let ?ev = "Called (Cache_Clear (NewVolumeCache (Image opts) ''build'') ctx) (Some e)"
  from assms(3) have mem: "?ev \<in> set b"
    by (simp add: em b_def)
  from Execute_body_failure [OF body] have
    res: "res = final_error (last b)" and
    butlast: "\<forall>ev\<in>set (butlast b). \<not> failed ev"
    by (simp_all add: b_def)
  from Execute_body_clear [OF body, of e] mem have steps: "filter is_step_event b = []"
    by (simp add: b_def)
  from mem obtain pre post where dec: "b = pre @ ?ev # post"
    by (auto simp: in_set_conv_decomp)
  have "b = pre @ [?ev] \<and> post = []"
    by (rule only_failure [OF butlast, of "[]" pre ?ev post]) (simp_all add: dec)
  then have "res = Some (Wrap e ''clearing build cache'')"
    by (simp add: res)
  moreover have st: "filter is_step_event (emitted s s') = []"
    by (simp add: em steps flip: b_def)
  moreover have "filter is_phase (calls (emitted s s')) = []"
  proof -
    have "\<And>evs. filter is_step_event evs = [] \<Longrightarrow> filter is_phase (calls evs) = []"
    proof -
      fix evs show "filter is_step_event evs = [] \<Longrightarrow> filter is_phase (calls evs) = []"
        by (induction evs rule: calls.induct) (auto split: if_splits)
    qed
    from this [OF st] show ?thesis .
  qed
  ultimately show ?thesis by simp
qed

text \<open>
  A run in which clearing the cache fails.
\<close>

theorem Execute_clear_failure_is_fatal_witness:
  "ClearCache (sample_opts (sample_builder ''0.2'' (Inr ''linux'')) True)
   \<and> Called (Cache_Clear (NewVolumeCache ''registry/app'' ''build'') (Cancellable False))
        (Some (Error ''cache busy''))
      \<in> set (emitted sample_state
        (snd (Execute (sample_env is_clear) (Cancellable False)
               (sample_opts (sample_builder ''0.2'' (Inr ''linux'')) True) sample_state)))
   \<and> fst (Execute (sample_env is_clear) (Cancellable False)
               (sample_opts (sample_builder ''0.2'' (Inr ''linux'')) True) sample_state) =
       Some (Wrap (Error ''cache busy'') ''clearing build cache'')
   \<and> filter is_phase (calls (emitted sample_state
        (snd (Execute (sample_env is_clear) (Cancellable False)
               (sample_opts (sample_builder ''0.2'' (Inr ''linux'')) True) sample_state)))) = []"
proof -
  let ?ctx = "Cancellable False"
  let ?opts = "sample_opts (sample_builder ''0.2'' (Inr ''linux'')) True"
  let ?run = "Execute (sample_env is_clear) ?ctx ?opts sample_state"
  have run: "?run = (fst ?run, snd ?run)"
    by simp
  have clear: "ClearCache ?opts"
    by (simp add: sample_opts_def)
  have img: "Image ?opts = ''registry/app''"
    by (simp add: sample_opts_def)
  have failed: "Called (Cache_Clear (NewVolumeCache (Image ?opts) ''build'') ?ctx)
      (Some (Error ''cache busy'')) \<in> set (emitted sample_state (snd ?run))"
    by (simp add: sample_defs)
  from Execute_clear_failure_is_fatal [OF run clear failed] clear failed
  show ?thesis by (simp add: img)
qed

text \<open>
  A builder that declares the platform API version \<^verbatim>\<open>0.9\<close>, outside the list of supported
  versions: \<^verbatim>\<open>Execute\<close> runs every phase and returns no error.
\<close>

theorem Execute_unsupported_platform_counterexample:
  "''0.9'' \<notin> set SupportedPlatformAPIVersions
   \<and> API_PlatformVersion (Descriptor (Builder
         (sample_opts (sample_builder ''0.9'' (Inr ''linux'')) False))) = ''0.9''
   \<and> fst (Execute (sample_env never) (Cancellable False)
            (sample_opts (sample_builder ''0.9'' (Inr ''linux'')) False) sample_state) = None
   \<and> calls (emitted sample_state
        (snd (Execute (sample_env never) (Cancellable False)
               (sample_opts (sample_builder ''0.9'' (Inr ''linux'')) False) sample_state))) =
       [prepareAppVolume (Cancellable False),
        Detect (Cancellable False) ''host'' [],
        Analyze (Cancellable False) ''registry/app'' ''pack-cache-registry/app.build'' False False,
        Restore (Cancellable False) ''pack-cache-registry/app.build'',
        Build (Cancellable False) ''host'' [],
        Export (Cancellable False) ''registry/app'' ''run'' False
          ''pack-cache-registry/app.launch'' ''pack-cache-registry/app.build'',
        VolumeRemove Background ''pack-layers-abcdefghij'' True,
        VolumeRemove Background ''pack-app-klmnopqrst'' True]"
  by (simp add: sample_defs SupportedPlatformAPIVersions_def)

text \<open>
  Claim C5, as amended. \<^verbatim>\<open>Execute\<close> does not compare the platform API version of the
  builder with \<open>SupportedPlatformAPIVersions\<close>. For a builder that declares a version outside
  the list and whose image OS can be read, \<^verbatim>\<open>Setup\<close> records that version in the lifecycle
  and the run goes on as for any other version: unless clearing the cache fails, the app
  volume is prepared and the phases follow in their order, stopping only at a phase that
  returns an error; when no phase and no cache clear returns an error, \<^verbatim>\<open>Execute\<close>
  returns no error and has invoked every phase of the sequence; and every error
  \<^verbatim>\<open>Execute\<close> returns is the error of a phase or of the cache clear that the run invoked,
  never a refusal of the version.
\<close>

theorem Execute_does_not_check_platform_API:
  assumes "Execute env ctx opts s = (res, s')"
    and "API_PlatformVersion (Descriptor (Builder opts)) \<notin> set SupportedPlatformAPIVersions"
    and "Image_OS (Builder opts) = Inr os_name"
  shows "platformAPIVersion (lc s') = API_PlatformVersion (Descriptor (Builder opts))
       \<and> ((\<forall>e. Called (Cache_Clear (NewVolumeCache (Image opts) ''build'') ctx) (Some e)
                  \<notin> set (emitted s s'))
            \<longrightarrow> prepareAppVolume ctx \<in> set (calls (emitted s s'))
               \<and> follows (phase_sequence env ctx opts) (filter is_step_event (emitted s s')))
       \<and> ((\<forall>ev\<in>set (emitted s s'). \<not> failed ev)
            \<longrightarrow> res = None
               \<and> filter is_phase (calls (emitted s s')) = phases_of (phase_sequence env ctx opts))
       \<and> (res = Some err
            \<longrightarrow> (\<exists>c e. Called c (Some e) \<in> set (emitted s s') \<and> (is_phase c \<or> is_clear c)
                        \<and> err = surfaced c e))
       \<and> (res = None \<longrightarrow>
            length (filter is_step_event (emitted s s')) = length (phase_sequence env ctx opts))"
proof -
  from assms(3) have ok: "fst (Setup opts s) = None"
    by (simp add: Setup_fst)
  from Execute_pieces [OF ok assms(1)] obtain s2 r1 r2 where
    body: "Execute_body env ctx opts (snd (Setup opts s)) = (res, s2)" and
    lc: "lc s' = lc (snd (Setup opts s))" and
    em: "emitted s s' = emitted (snd (Setup opts s)) s2 @
       [Called (VolumeRemove Background (LayersVolume (lc s')) True) r1,
        Called (VolumeRemove Background (AppVolume (lc s')) True) r2]"
    by blast
  have "platformAPIVersion (lc s') = API_PlatformVersion (Descriptor (Builder opts))"
    by (simp add: lc Setup_platformAPIVersion)
  moreover from Execute_body_clear [OF body]
  have "(\<forall>e. Called (Cache_Clear (NewVolumeCache (Image opts) ''build'') ctx) (Some e)
                  \<notin> set (emitted s s'))
            \<longrightarrow> prepareAppVolume ctx \<in> set (calls (emitted s s'))"
    by (simp add: em calls_append)
  ultimately show ?thesis
    using Execute_ran(1,2,4) [OF ok assms(1)] Execute_ran(3) [OF ok assms(1), of err] by simp
qed

text \<open>
  The builder that declares \<^verbatim>\<open>0.9\<close>, in a run where no call fails and in a run where
  Detect fails.
\<close>

theorem Execute_does_not_check_platform_API_witness:
  "''0.9'' \<notin> set SupportedPlatformAPIVersions
   \<and> platformAPIVersion (lc (snd (Execute (sample_env never) (Cancellable False)
        (sample_opts (sample_builder ''0.9'' (Inr ''linux'')) False) sample_state))) = ''0.9''
   \<and> fst (Execute (sample_env never) (Cancellable False)
        (sample_opts (sample_builder ''0.9'' (Inr ''linux'')) False) sample_state) = None
   \<and> filter is_phase (calls (emitted sample_state
        (snd (Execute (sample_env never) (Cancellable False)
               (sample_opts (sample_builder ''0.9'' (Inr ''linux'')) False) sample_state)))) =
       [prepareAppVolume (Cancellable False),
        Detect (Cancellable False) ''host'' [],
        Analyze (Cancellable False) ''registry/app'' ''pack-cache-registry/app.build'' False False,
        Restore (Cancellable False) ''pack-cache-registry/app.build'',
        Build (Cancellable False) ''host'' [],
        Export (Cancellable False) ''registry/app'' ''run'' False
          ''pack-cache-registry/app.launch'' ''pack-cache-registry/app.build'']
   \<and> (\<exists>c e. Called c (Some e) \<in> set (emitted sample_state
          (snd (Execute (sample_env is_Detect) (Cancellable False)
                 (sample_opts (sample_builder ''0.9'' (Inr ''linux'')) False) sample_state)))
        \<and> (is_phase c \<or> is_clear c) \<and> Error ''exit status 1'' = surfaced c e)"
proof -
  let ?ctx = "Cancellable False"
  let ?opts = "sample_opts (sample_builder ''0.9'' (Inr ''linux'')) False"
  let ?run = "Execute (sample_env never) ?ctx ?opts sample_state"
  let ?run' = "Execute (sample_env is_Detect) ?ctx ?opts sample_state"
  have run: "?run = (fst ?run, snd ?run)" and run': "?run' = (fst ?run', snd ?run')"
    by simp_all
  have v: "API_PlatformVersion (Descriptor (Builder ?opts)) = ''0.9''"
    by (simp add: sample_opts_def sample_builder_def)
  have out: "''0.9'' \<notin> set SupportedPlatformAPIVersions"
    by (simp add: SupportedPlatformAPIVersions_def)
  then have out': "API_PlatformVersion (Descriptor (Builder ?opts)) \<notin> set SupportedPlatformAPIVersions"
    by (simp add: v)
  have os: "Image_OS (Builder ?opts) = Inr ''linux''"
    by (simp add: sample_opts_def sample_builder_def)
  have quiet: "\<forall>ev\<in>set (emitted sample_state (snd ?run)). \<not> failed ev"
    by (simp add: sample_defs)
  have seq: "phases_of (phase_sequence (sample_env never) ?ctx ?opts) =
       [prepareAppVolume ?ctx, Detect ?ctx ''host'' [],
        Analyze ?ctx ''registry/app'' ''pack-cache-registry/app.build'' False False,
        Restore ?ctx ''pack-cache-registry/app.build'',
        Build ?ctx ''host'' [],
        Export ?ctx ''registry/app'' ''run'' False
          ''pack-cache-registry/app.launch'' ''pack-cache-registry/app.build'']"
    by (simp add: phase_sequence_def sample_opts_def sample_env_def)
  have err: "fst ?run' = Some (Error ''exit status 1'')"
    by (simp add: sample_defs)
  from Execute_does_not_check_platform_API [OF run out' os, of "Error ''x''"] quiet
  have "platformAPIVersion (lc (snd ?run)) = ''0.9''" and "fst ?run = None"
    and "filter is_phase (calls (emitted sample_state (snd ?run))) =
           phases_of (phase_sequence (sample_env never) ?ctx ?opts)"
    by (simp_all add: v)
  moreover from Execute_does_not_check_platform_API [OF run' out' os, of "Error ''exit status 1''"] err
  have "\<exists>c e. Called c (Some e) \<in> set (emitted sample_state (snd ?run'))
        \<and> (is_phase c \<or> is_clear c) \<and> Error ''exit status 1'' = surfaced c e"
    by blast
  ultimately show ?thesis
    using out by (simp add: seq)
qed

text \<open>
  With \<open>ClearCache\<close> set and a builder image whose OS cannot be read, the build cache is
  not cleared and nothing is logged.
\<close>

theorem Execute_clear_not_called_counterexample:
  "ClearCache (sample_opts (sample_builder ''0.2'' (Inl (Error ''no such image''))) True)
   \<and> fst (Execute (sample_env never) (Cancellable False)
            (sample_opts (sample_builder ''0.2'' (Inl (Error ''no such image''))) True)
            sample_state) = Some (Error ''no such image'')
   \<and> emitted sample_state
        (snd (Execute (sample_env never) (Cancellable False)
               (sample_opts (sample_builder ''0.2'' (Inl (Error ''no such image''))) True)
               sample_state)) = []
   \<and> filter is_clear (calls (emitted sample_state
        (snd (Execute (sample_env never) (Cancellable False)
               (sample_opts (sample_builder ''0.2'' (Inl (Error ''no such image''))) True)
               sample_state)))) = []"
  by (simp add: sample_defs)

text \<open>
  Claim C8, as amended. In every run of \<^verbatim>\<open>Execute\<close> in which \<^verbatim>\<open>Setup\<close> succeeded, the
  name of the build cache is logged and the calls of \<^verbatim>\<open>Clear\<close> are: one call on the build
  cache if \<open>ClearCache\<close> is set, none if it is not. In a run in which \<^verbatim>\<open>Setup\<close> failed
  nothing is cleared or logged. \<^verbatim>\<open>Clear\<close> is never called on the launch cache.
\<close>

theorem Execute_clears_only_build_cache:
  assumes "Execute env ctx opts s = (res, s')"
  shows "(fst (Setup opts s) = None \<longrightarrow>
            filter is_clear (calls (emitted s s')) =
              (if ClearCache opts then [Cache_Clear (NewVolumeCache (Image opts) ''build'') ctx]
               else [])
          \<and> Debugf ''Using build cache volume %s''
               [Symbol (cache_Name env (NewVolumeCache (Image opts) ''build''))]
               \<in> set (emitted s s'))
       \<and> (fst (Setup opts s) \<noteq> None \<longrightarrow> emitted s s' = [])
       \<and> Cache_Clear (NewVolumeCache (Image opts) ''launch'') x \<notin> set (calls (emitted s s'))"
  using assms
proof (cases rule: Execute_emitted_cases)
  case (failed_Setup err)
  then show ?thesis by simp
next
  case (ran s2 r1 r2)
  from Execute_body_clear [OF ran(2)] have
    clears: "filter is_clear (calls (emitted s s')) =
              (if ClearCache opts then [Cache_Clear (NewVolumeCache (Image opts) ''build'') ctx]
               else [])" and
    logged: "Debugf ''Using build cache volume %s''
               [Symbol (cache_Name env (NewVolumeCache (Image opts) ''build''))]
               \<in> set (emitted s s')"
    by (simp_all add: ran(4) calls_append)
  have "Cache_Clear (NewVolumeCache (Image opts) ''launch'') x \<notin> set (calls (emitted s s'))"
  proof
    assume "Cache_Clear (NewVolumeCache (Image opts) ''launch'') x \<in> set (calls (emitted s s'))"
    then have "Cache_Clear (NewVolumeCache (Image opts) ''launch'') x
                 \<in> set (filter is_clear (calls (emitted s s')))"
      by simp
    then show False
      unfolding clears by (simp split: if_splits)
  qed
  with clears logged ran(1) show ?thesis by simp
qed

text \<open>
  A run with \<open>ClearCache\<close> set, and the same with a builder image whose OS cannot be
  read.
\<close>

theorem Execute_clears_only_build_cache_witness:
  "fst (Setup (sample_opts (sample_builder ''0.2'' (Inr ''linux'')) True) sample_state) = None
   \<and> filter is_clear (calls (emitted sample_state
        (snd (Execute (sample_env never) (Cancellable False)
               (sample_opts (sample_builder ''0.2'' (Inr ''linux'')) True) sample_state)))) =
       [Cache_Clear (NewVolumeCache ''registry/app'' ''build'') (Cancellable False)]
   \<and> Debugf ''Using build cache volume %s'' [Symbol ''pack-cache-registry/app.build'']
       \<in> set (emitted sample_state
        (snd (Execute (sample_env never) (Cancellable False)
               (sample_opts (sample_builder ''0.2'' (Inr ''linux'')) True) sample_state)))
   \<and> fst (Setup (sample_opts (sample_builder ''0.2'' (Inl (Error ''no such image''))) True)
            sample_state) \<noteq> None
   \<and> emitted sample_state
        (snd (Execute (sample_env never) (Cancellable False)
               (sample_opts (sample_builder ''0.2'' (Inl (Error ''no such image''))) True)
               sample_state)) = []"
proof -
  let ?ctx = "Cancellable False"
  let ?opts = "sample_opts (sample_builder ''0.2'' (Inr ''linux'')) True"
  let ?run = "Execute (sample_env never) ?ctx ?opts sample_state"
  let ?opts' = "sample_opts (sample_builder ''0.2'' (Inl (Error ''no such image''))) True"
  let ?run' = "Execute (sample_env never) ?ctx ?opts' sample_state"
  have run: "?run = (fst ?run, snd ?run)" and run': "?run' = (fst ?run', snd ?run')"
    by simp_all
  have ok: "fst (Setup ?opts sample_state) = None"
    and bad: "fst (Setup ?opts' sample_state) \<noteq> None"
    by (simp_all add: sample_defs)
  have vals: "ClearCache ?opts" "Image ?opts = ''registry/app''"
    "cache_Name (sample_env never) (NewVolumeCache ''registry/app'' ''build'') =
       ''pack-cache-registry/app.build''"
    by (simp_all add: sample_opts_def sample_env_def)
  from Execute_clears_only_build_cache [OF run] Execute_clears_only_build_cache [OF run']
  show ?thesis
    using ok bad by (simp add: vals)
qed

text \<open>
  Claim C9. \<^verbatim>\<open>Cleanup\<close> issues its two removals with \<^verbatim>\<open>context.Background()\<close>, not with
  the context of the build: whatever context \<^verbatim>\<open>Execute\<close> was given, cancelled or not, a run
  whose \<^verbatim>\<open>Setup\<close> succeeded ends with the removal of the layers volume and of the app
  volume under the background context, and these are its only removals.
\<close>

theorem Cleanup_uses_background_context:
  "calls (emitted s0 (snd (Cleanup env s0))) =
     [VolumeRemove Background (LayersVolume (lc s0)) True,
      VolumeRemove Background (AppVolume (lc s0)) True]
   \<and> (Execute env ctx opts s = (res, s') \<and> fst (Setup opts s) = None \<longrightarrow>
        (\<exists>front r1 r2.
           emitted s s' =
             front @ [Called (VolumeRemove Background (LayersVolume (lc s')) True) r1,
                      Called (VolumeRemove Background (AppVolume (lc s')) True) r2]
           \<and> filter is_removal (calls front) = []))"
proof (intro conjI impI)
  from Cleanup_result [of env s0] show "calls (emitted s0 (snd (Cleanup env s0))) =
     [VolumeRemove Background (LayersVolume (lc s0)) True,
      VolumeRemove Background (AppVolume (lc s0)) True]"
    by (auto simp: emitted_def)
next
  assume "Execute env ctx opts s = (res, s') \<and> fst (Setup opts s) = None"
  then have ex: "Execute env ctx opts s = (res, s')" and ok: "fst (Setup opts s) = None"
    by simp_all
  from Execute_pieces [OF ok ex] obtain s2 r1 r2 where
    body: "Execute_body env ctx opts (snd (Setup opts s)) = (res, s2)" and
    em: "emitted s s' = emitted (snd (Setup opts s)) s2 @
       [Called (VolumeRemove Background (LayersVolume (lc s')) True) r1,
        Called (VolumeRemove Background (AppVolume (lc s')) True) r2]"
    by blast
  from Execute_body_failure [OF body]
  have "filter is_removal (calls (emitted (snd (Setup opts s)) s2)) = []"
    by simp
  with em show "\<exists>front r1 r2.
           emitted s s' =
             front @ [Called (VolumeRemove Background (LayersVolume (lc s')) True) r1,
                      Called (VolumeRemove Background (AppVolume (lc s')) True) r2]
           \<and> filter is_removal (calls front) = []"
    by blast
qed

text \<open>
  A run under a cancelled context.
\<close>

theorem Cleanup_uses_background_context_witness:
  "fst (Setup (sample_opts (sample_builder ''0.2'' (Inr ''linux'')) False) sample_state) = None
   \<and> (\<exists>front r1 r2.
         emitted sample_state
           (snd (Execute (sample_env never) (Cancellable True)
                  (sample_opts (sample_builder ''0.2'' (Inr ''linux'')) False) sample_state)) =
           front @ [Called (VolumeRemove Background ''pack-layers-abcdefghij'' True) r1,
                    Called (VolumeRemove Background ''pack-app-klmnopqrst'' True) r2]
         \<and> filter is_removal (calls front) = [])"
proof -
  let ?ctx = "Cancellable True"
  let ?opts = "sample_opts (sample_builder ''0.2'' (Inr ''linux'')) False"
  let ?run = "Execute (sample_env never) ?ctx ?opts sample_state"
  have run: "?run = (fst ?run, snd ?run)"
    by simp
  have ok: "fst (Setup ?opts sample_state) = None"
    by (simp add: sample_defs)
  have names: "LayersVolume (lc (snd ?run)) = ''pack-layers-abcdefghij''"
    "AppVolume (lc (snd ?run)) = ''pack-app-klmnopqrst''"
    by (simp_all add: sample_defs)
  from Cleanup_uses_background_context [of sample_state "sample_env never"
         ?ctx ?opts sample_state "fst ?run" "snd ?run"]
  show ?thesis
    using run ok by (simp add: names)
qed

end
